theory Spec2Isabelle
  imports Main "HOL-Library.Extended_Nat"
begin

section \<open>bladwijzers: a command-line bookmark organizer\<close>

text \<open>
  The program is one script, \<^verbatim>\<open>index.js\<close>. It keeps a list of bookmark items in a
  configuration file and offers the commands add, remove, open and list. The packages
  it requires (normalize-url, crypto, valid-url, got, metascraper, colors,
  terminal-link, the URL class) are not part of the repository: their functions are
  the fields of the record \<open>library\<close> and every definition below takes such a record.
  A function of a package that can throw or reject returns an option, \<open>None\<close> for
  the exception.
  The prompts of inquirer are scripted: a record \<open>session\<close> holds the answers with
  which the prompts resolve.
\<close>

subsection \<open>Data model\<close>

text \<open>A bookmark: \<^verbatim>\<open>{ hash, collection, url, title }\<close>. The title is missing
  (\<^verbatim>\<open>undefined\<close>) in the item \<^verbatim>\<open>createItem\<close> builds from a bare \<^verbatim>\<open>{ url }\<close>,
  until \<^verbatim>\<open>addCommand\<close> assigns the answer of the title prompt.\<close>

record item =
  hash :: string
  url :: string
  collection :: string
  title :: "string option"

text \<open>What \<^verbatim>\<open>fetchItemMeta\<close> returns: the url and, when a page was scraped, the
  fields metascraper found. Only the title rule is loaded, so the title is the only
  scraped field; it is absent in the bare record \<^verbatim>\<open>{ url }\<close>.\<close>

record meta =
  meta_url :: string
  meta_title :: "string option"

record response =
  statusCode :: nat
  body :: string

datatype error =
    NormalizeError  \<comment> \<open>normalize-url throws on a string it cannot parse\<close>
  | UrlParseError   \<comment> \<open>\<^verbatim>\<open>new URL(...)\<close> throws a TypeError\<close>
  | RequestError    \<comment> \<open>got rejects: no HTTP response was received\<close>
  | HTTPError nat   \<comment> \<open>got rejects on a failure status, when asked to\<close>
  | MetascraperError  \<comment> \<open>metascraper rejects, for instance a url it takes for invalid\<close>

text \<open>
  \<open>metascraper L html url\<close> is \<open>None\<close> when the promise of
  \<^verbatim>\<open>metascraper({ html, url })\<close> rejects and \<open>Some t\<close> when it resolves, \<open>t\<close> being
  the title it found, if any. \<open>hostname L url\<close> is \<open>None\<close> when \<^verbatim>\<open>new URL(url)\<close>
  throws. \<open>code_units L s\<close> are the characters \<^verbatim>\<open>s[0]\<close>, \<^verbatim>\<open>s[1]\<close>, ... that
  JavaScript sees in the string \<open>s\<close>, each as a string.
\<close>

record library =
  normalizeUrl :: "string \<Rightarrow> string option"
  md5_hex :: "string \<Rightarrow> string"
  isUri :: "string \<Rightarrow> bool"
  metascraper :: "string \<Rightarrow> string \<Rightarrow> string option option"
  hostname :: "string \<Rightarrow> string option"
  green :: "string \<Rightarrow> string"
  blue :: "string \<Rightarrow> string"
  terminalLink :: "string \<Rightarrow> string \<Rightarrow> string"
  code_units :: "string \<Rightarrow> string list"

subsection \<open>Hashing\<close>

text \<open>\<^verbatim>\<open>crypto.createHash("md5").update(normalizeUrl(url)).digest("hex")\<close>\<close>

definition hashUrl :: "library \<Rightarrow> string \<Rightarrow> error + string" where
  "hashUrl L u =
     (case normalizeUrl L u of
        None \<Rightarrow> Inl NormalizeError
      | Some n \<Rightarrow> Inr (md5_hex L n))"

subsection \<open>The store\<close>

text \<open>
  \<^verbatim>\<open>getItems\<close> reads the whole list from the configuration (\<^verbatim>\<open>[]\<close> when the key
  is missing) and \<^verbatim>\<open>saveItems\<close> writes the whole list back. The persisted list is
  the state: each operation takes it and, when it saves, returns the new one.
\<close>

definition getItem :: "library \<Rightarrow> string \<Rightarrow> item list \<Rightarrow> error + item option" where
  "getItem L u items =
     (case hashUrl L u of
        Inl e \<Rightarrow> Inl e
      | Inr h \<Rightarrow> Inr (find (\<lambda>x. hash x = h) items))"

definition addItem :: "item \<Rightarrow> item list \<Rightarrow> item list" where
  "addItem it items = items @ [it]"

text \<open>\<^verbatim>\<open>index.js\<close>: \<^verbatim>\<open>this.getItems().filter(x => x.url !== item.url)\<close>\<close>

definition removeItem :: "item \<Rightarrow> item list \<Rightarrow> item list" where
  "removeItem it items = filter (\<lambda>x. url x \<noteq> url it) items"

text \<open>The second copy of the script, \<^verbatim>\<open>src/unnamed/part_000\<close>, has
  \<^verbatim>\<open>this.getItems().filter(x => x.url === item.url)\<close> in the same place.\<close>

definition removeItem_part_000 :: "item \<Rightarrow> item list \<Rightarrow> item list" where
  "removeItem_part_000 it items = filter (\<lambda>x. url x = url it) items"

text \<open>lodash's \<^verbatim>\<open>uniq\<close> keeps the first occurrence of every value, in order.\<close>

fun uniq_acc :: "'a list \<Rightarrow> 'a list \<Rightarrow> 'a list" where
  "uniq_acc acc [] = acc"
| "uniq_acc acc (x # xs) = uniq_acc (if x \<in> set acc then acc else acc @ [x]) xs"

definition uniq :: "'a list \<Rightarrow> 'a list" where
  "uniq xs = uniq_acc [] xs"

definition getCollections :: "item list \<Rightarrow> string list" where
  "getCollections items = uniq (map collection items)"

definition getCollectionItems :: "string \<Rightarrow> item list \<Rightarrow> item list" where
  "getCollectionItems c items = filter (\<lambda>x. collection x = c) items"

subsection \<open>Fuzzy search of collections\<close>

text \<open>
  The package fuzzy is not in the repository. \<open>fuzzy_match\<close> and \<open>fuzzy_filter\<close>
  follow its \<^verbatim>\<open>match\<close> and \<^verbatim>\<open>filter\<close> as called here, without options: both
  strings are lower-cased, the pattern has to occur in the string as a subsequence
  found greedily from the left, a run of consecutive hits scores more than
  linearly, an exact match scores \<^verbatim>\<open>Infinity\<close>, and the matches are sorted by
  falling score, then by rising index. Characters are bytes here, so
  \<^verbatim>\<open>toLowerCase\<close> is the one of ASCII.
\<close>

definition toLowerCase :: "string \<Rightarrow> string" where
  "toLowerCase s =
     map (\<lambda>c. let n = (of_char c :: nat) in if 65 \<le> n \<and> n \<le> 90 then char_of (n + 32) else c) s"

fun match_loop :: "string \<Rightarrow> string \<Rightarrow> nat \<Rightarrow> nat \<Rightarrow> string \<times> nat" where
  "match_loop pattern [] currScore totalScore = (pattern, totalScore)"
| "match_loop [] (c # cs) currScore totalScore = match_loop [] cs 0 totalScore"
| "match_loop (p # ps) (c # cs) currScore totalScore =
     (if c = p
      then match_loop ps cs (currScore + (1 + currScore)) (totalScore + (currScore + (1 + currScore)))
      else match_loop (p # ps) cs 0 totalScore)"

definition fuzzy_match :: "string \<Rightarrow> string \<Rightarrow> (string \<times> enat) option" where
  "fuzzy_match pattern str =
     (let compareString = toLowerCase str;
          pattern' = toLowerCase pattern;
          (rest, totalScore) = match_loop pattern' compareString 0 0
      in if rest = []
         then Some (str, if compareString = pattern' then \<infinity> else enat totalScore)
         else None)"

record fuzzy_result =
  string :: string
  score :: enat
  index :: nat
  original :: string

fun matches_from :: "string \<Rightarrow> nat \<Rightarrow> string list \<Rightarrow> fuzzy_result list" where
  "matches_from pattern idx [] = []"
| "matches_from pattern idx (element # arr) =
     (case fuzzy_match pattern element of
        None \<Rightarrow> matches_from pattern (Suc idx) arr
      | Some (r, sc) \<Rightarrow>
          \<lparr>string = r, score = sc, index = idx, original = element\<rparr>
            # matches_from pattern (Suc idx) arr)"

definition ranks_before :: "fuzzy_result \<Rightarrow> fuzzy_result \<Rightarrow> bool" where
  "ranks_before a b \<longleftrightarrow> score b < score a \<or> (score a = score b \<and> index a < index b)"

fun insert_ranked :: "fuzzy_result \<Rightarrow> fuzzy_result list \<Rightarrow> fuzzy_result list" where
  "insert_ranked a [] = [a]"
| "insert_ranked a (b # bs) =
     (if ranks_before a b then a # b # bs else b # insert_ranked a bs)"

definition fuzzy_filter :: "string \<Rightarrow> string list \<Rightarrow> fuzzy_result list" where
  "fuzzy_filter pattern arr =
     (if arr = [] then [] else foldr insert_ranked (matches_from pattern 0 arr) [])"

text \<open>The prompt calls the source function with \<^verbatim>\<open>undefined\<close> before anything is
  typed: the input is optional, and \<^verbatim>\<open>!input\<close> holds for \<^verbatim>\<open>undefined\<close> and
  for the empty string.\<close>

definition fuzzySearchCollections :: "string option \<Rightarrow> item list \<Rightarrow> string list" where
  "fuzzySearchCollections input items =
     (case input of
        None \<Rightarrow> getCollections items
      | Some i \<Rightarrow>
          if i = [] then getCollections items
          else map string (fuzzy_filter i (getCollections items)))"

subsection \<open>Fetching the metadata\<close>

text \<open>
  What the network does is an input: either no response ever arrives (got rejects
  with a request error) or a response with a status and a body does. \<open>got\<close> models
  the package's option \<^verbatim>\<open>throwHttpErrors\<close>: only when it is set, a status other
  than 2xx and 304 becomes an error.
\<close>

datatype http_outcome = NoResponse | Response response

definition got :: "bool \<Rightarrow> http_outcome \<Rightarrow> error + response" where
  "got throwHttpErrors out =
     (case out of
        NoResponse \<Rightarrow> Inl RequestError
      | Response r \<Rightarrow>
          if throwHttpErrors \<and> statusCode r \<noteq> 304 \<and> (statusCode r < 200 \<or> 299 < statusCode r)
          then Inl (HTTPError (statusCode r))
          else Inr r)"

text \<open>
  \<^verbatim>\<open>Promise.race([got(url, { throwHttpErrors: false }), timeout(5000)])\<close>: the
  result is the one of the promise that settles first. Which one does is an input
  too; the timeout resolves with \<^verbatim>\<open>undefined\<close>, the only falsy result. After a
  response, \<^verbatim>\<open>await metascraper({ html: resp.body, url })\<close> can reject, and then
  \<^verbatim>\<open>fetchItemMeta\<close> rejects.
\<close>

datatype race_outcome = TimeoutFirst | GotFirst http_outcome

definition fetchItemMeta :: "library \<Rightarrow> string \<Rightarrow> race_outcome \<Rightarrow> error + meta" where
  "fetchItemMeta L u r =
     (case r of
        TimeoutFirst \<Rightarrow> Inr \<lparr>meta_url = u, meta_title = None\<rparr>
      | GotFirst out \<Rightarrow>
          (case got False out of
             Inl e \<Rightarrow> Inl e
           | Inr resp \<Rightarrow>
               (case metascraper L (body resp) u of
                  None \<Rightarrow> Inl MetascraperError
                | Some t \<Rightarrow> Inr \<lparr>meta_url = u, meta_title = t\<rparr>)))"

text \<open>\<^verbatim>\<open>{ hash, collection, ...meta }\<close>\<close>

definition createItem :: "library \<Rightarrow> meta \<Rightarrow> string \<Rightarrow> error + item" where
  "createItem L m c =
     (case hashUrl L (meta_url m) of
        Inl e \<Rightarrow> Inl e
      | Inr h \<Rightarrow> Inr \<lparr>hash = h, url = meta_url m, collection = c, title = meta_title m\<rparr>)"

subsection \<open>Prompts\<close>

text \<open>
  The answers with which the prompts of one command resolve, and the outcome of the
  race in \<^verbatim>\<open>fetchItemMeta\<close>. Each prompt validates before it resolves: the url and
  the title are not empty, the collection is not empty and either starts with
  \<^verbatim>\<open>"create collection: "\<close> or is an existing collection.
\<close>

record session =
  url_answer :: string
  collection_answer :: string
  title_answer :: string
  fetch_race :: race_outcome

definition inputUrl :: "session \<Rightarrow> string" where
  "inputUrl S = url_answer S"

definition inputTitle :: "session \<Rightarrow> string option \<Rightarrow> string" where
  "inputTitle S suggestedTitle = title_answer S"

text \<open>\<^verbatim>\<open>String.prototype.replace\<close> with a string pattern replaces the first
  occurrence only.\<close>

fun replace_first :: "string \<Rightarrow> string \<Rightarrow> string \<Rightarrow> string" where
  "replace_first pat rep [] = (if pat = [] then rep else [])"
| "replace_first pat rep (c # cs) =
     (if take (length pat) (c # cs) = pat then rep @ drop (length pat) (c # cs)
      else c # replace_first pat rep cs)"

definition createCollectionStr :: string where
  "createCollectionStr = ''create collection: ''"

definition selectCollection :: "session \<Rightarrow> string" where
  "selectCollection S = replace_first createCollectionStr [] (collection_answer S)"

subsection \<open>The add command\<close>

text \<open>What the command prints: with \<^verbatim>\<open>output.err\<close> or with \<^verbatim>\<open>output.info\<close>.\<close>

datatype printed = err string | info string

text \<open>\<^verbatim>\<open>if (!url) { url = await inputUrl(); }\<close>: commander passes \<^verbatim>\<open>undefined\<close> when
  the argument is left out.\<close>

definition given_url :: "session \<Rightarrow> string option \<Rightarrow> string" where
  "given_url S arg = (case arg of None \<Rightarrow> inputUrl S | Some a \<Rightarrow> if a = [] then inputUrl S else a)"

definition addCommand ::
  "library \<Rightarrow> session \<Rightarrow> string option \<Rightarrow> item list \<Rightarrow> error + (printed \<times> item list)" where
  "addCommand L S arg items =
     (let u = given_url S arg
      in if \<not> isUri L u then Inr (err ''The provided url is not valid'', items)
         else
           case getItem L u items of
             Inl e \<Rightarrow> Inl e
           | Inr (Some existingItem) \<Rightarrow>
               Inr (err (''The provided url has already been added to '' @ collection existingItem),
                    items)
           | Inr None \<Rightarrow>
               (case fetchItemMeta L u (fetch_race S) of
                  Inl e \<Rightarrow> Inl e
                | Inr m \<Rightarrow>
                    (case createItem L m (selectCollection S) of
                       Inl e \<Rightarrow> Inl e
                     | Inr it \<Rightarrow>
                         Inr (info ''Following item has been added!'',
                              addItem (it\<lparr>title := Some (inputTitle S (title it))\<rparr>) items))))"

subsection \<open>The list command\<close>

text \<open>
  The command fills the object \<^verbatim>\<open>collections\<close>, which starts as \<^verbatim>\<open>{}\<close>, and hands
  it to treeify. The values of its properties are objects again, the branches, whose
  values are strings. The order of the properties is not modelled: an object is the
  map of its own properties, and \<^verbatim>\<open>collections\<close> has a prototype in addition,
  because an assignment to its property \<^verbatim>\<open>__proto__\<close> replaces the prototype
  instead of creating a property. \<open>proto C = None\<close> stands for the prototype every
  object literal starts with, \<^verbatim>\<open>Object.prototype\<close>; the prototype of a branch is
  never replaced, since the setter ignores a string.
\<close>

type_synonym branch = "string \<rightharpoonup> string"

record js_object =
  own :: "string \<rightharpoonup> branch"
  proto :: "branch option"

text \<open>
  What \<^verbatim>\<open>collections[c]\<close> evaluates to: an own property, else a property of the
  prototype, which holds strings, else the prototype itself for \<^verbatim>\<open>__proto__\<close>.
  The members of \<^verbatim>\<open>Object.prototype\<close> are functions, and neither they nor
  \<^verbatim>\<open>Object.prototype\<close> have enumerable properties of their own: for
  \<^verbatim>\<open>Object.assign\<close> they are sources that give nothing, like \<^verbatim>\<open>undefined\<close>.
\<close>

datatype js_value = JUndefined | JObject branch | JString string

definition get_property :: "js_object \<Rightarrow> string \<Rightarrow> js_value" where
  "get_property C c =
     (case own C c of
        Some g \<Rightarrow> JObject g
      | None \<Rightarrow>
          (case proto C of
             None \<Rightarrow> JUndefined
           | Some P \<Rightarrow>
               (case P c of
                  Some s \<Rightarrow> JString s
                | None \<Rightarrow> if c = ''__proto__'' then JObject P else JUndefined)))"

text \<open>
  \<^verbatim>\<open>collections[c] = T\<close>: an own property is written, and one is created when the
  name is found nowhere or as a property of the prototype; only the name
  \<^verbatim>\<open>__proto__\<close>, when it is found nowhere, reaches the setter of
  \<^verbatim>\<open>Object.prototype\<close>, which makes \<open>T\<close> the prototype.
\<close>

definition set_property :: "js_object \<Rightarrow> string \<Rightarrow> branch \<Rightarrow> js_object" where
  "set_property C c T =
     (if c = ''__proto__'' \<and> own C c = None \<and> (case proto C of None \<Rightarrow> True | Some P \<Rightarrow> P c = None)
      then C\<lparr>proto := Some T\<rparr>
      else C\<lparr>own := (own C)(c \<mapsto> T)\<rparr>)"

text \<open>The decimal name of an index, as in the properties \<^verbatim>\<open>"0"\<close>, \<^verbatim>\<open>"1"\<close>, ... of
  a string.\<close>

fun index_name :: "nat \<Rightarrow> string" where
  "index_name n =
     (if n < 10 then [char_of (48 + n)]
      else index_name (n div 10) @ [char_of (48 + n mod 10)])"

text \<open>
  \<^verbatim>\<open>Object.assign(T, source)\<close> for a target \<open>T\<close> that is a branch. It assigns every
  enumerable own property of the source to the target: those of an object; the
  characters of a string under their indices; nothing for \<^verbatim>\<open>undefined\<close>. The
  assignment of a string to \<^verbatim>\<open>__proto__\<close> changes nothing unless the target has an
  own property of that name (the literal \<^verbatim>\<open>{ [title]: link }\<close> creates one when the
  title is \<^verbatim>\<open>__proto__\<close>).
\<close>

definition object_assign :: "library \<Rightarrow> branch \<Rightarrow> js_value \<Rightarrow> branch" where
  "object_assign L T source =
     (case source of
        JUndefined \<Rightarrow> T
      | JObject g \<Rightarrow>
          (\<lambda>k. case g k of
                 None \<Rightarrow> T k
               | Some v \<Rightarrow> if k = ''__proto__'' \<and> T k = None then None else Some v)
      | JString s \<Rightarrow>
          T ++ map_of (zip (map index_name [0..<length (code_units L s)]) (code_units L s)))"

text \<open>lodash's \<^verbatim>\<open>truncate\<close> with the default omission \<^verbatim>\<open>"..."\<close>; a missing title
  is the empty string. Characters are bytes here, so the length is the one lodash
  counts for titles in ASCII.\<close>

definition truncate :: "nat \<Rightarrow> string option \<Rightarrow> string" where
  "truncate len t =
     (let s = (case t of None \<Rightarrow> [] | Some s \<Rightarrow> s)
      in if length s \<le> len then s
         else if len - 3 < 1 then ''...''
         else take (len - 3) s @ ''...'')"

text \<open>The key and the value of an item's entry; \<open>ellipsis\<close> is the character
  U+2026 in UTF-8.\<close>

definition ellipsis :: string where
  "ellipsis = [CHR 0xE2, CHR 0x80, CHR 0xA6]"

definition entry_title :: "library \<Rightarrow> item \<Rightarrow> string" where
  "entry_title L it = green L (truncate 40 (title it))"

definition entry_link :: "library \<Rightarrow> item \<Rightarrow> error + string" where
  "entry_link L it =
     (case hostname L (url it) of
        None \<Rightarrow> Inl UrlParseError
      | Some h \<Rightarrow> Inr (terminalLink L (blue L (h @ ''/'' @ ellipsis)) (url it)))"

fun list_loop :: "library \<Rightarrow> item list \<Rightarrow> js_object \<Rightarrow> error + js_object" where
  "list_loop L [] collections = Inr collections"
| "list_loop L (it # items) collections =
     (case entry_link L it of
        Inl e \<Rightarrow> Inl e
      | Inr link \<Rightarrow>
          list_loop L items
            (set_property collections (collection it)
               (object_assign L [entry_title L it \<mapsto> link]
                  (get_property collections (collection it)))))"

text \<open>
  The result is what \<^verbatim>\<open>treeify.asTree(collections, true)\<close> is given to print: the
  own properties of \<^verbatim>\<open>collections\<close>, one branch for each, and the own properties
  of each branch, one leaf \<^verbatim>\<open>title: link\<close> for each. treeify skips what an object
  inherits, and it calls \<^verbatim>\<open>hasOwnProperty\<close> as a method of the object it prints;
  how it renders is not modelled.
\<close>

definition listCommand :: "library \<Rightarrow> item list \<Rightarrow> error + (string \<rightharpoonup> branch)" where
  "listCommand L items =
     (case list_loop L items \<lparr>own = Map.empty, proto = None\<rparr> of
        Inl e \<Rightarrow> Inl e
      | Inr collections \<Rightarrow> Inr (own collections))"

subsection \<open>Reading the tree\<close>

text \<open>
  \<open>leaf tree c k\<close> is the link under the title \<open>k\<close> of the branch \<open>c\<close>, and
  \<open>first_leaf L items c k\<close> is the link of the first stored item with collection
  \<open>c\<close> whose entry has the title \<open>k\<close>. \<open>collides L items n i\<close> says that the items
  at the positions \<open>n\<close> and \<open>i\<close> have the same collection and the same rendered
  title. \<open>printed_labels\<close>, \<open>printed_leaf\<close> and \<open>printed_links\<close> read the tree of a
  run, and are empty when the command throws.
\<close>

definition leaf :: "(string \<rightharpoonup> branch) \<Rightarrow> string \<Rightarrow> string \<Rightarrow> string option" where
  "leaf tree c k = (case tree c of None \<Rightarrow> None | Some g \<Rightarrow> g k)"

definition first_leaf :: "library \<Rightarrow> item list \<Rightarrow> string \<Rightarrow> string \<Rightarrow> string option" where
  "first_leaf L items c k =
     (case find (\<lambda>x. collection x = c \<and> entry_title L x = k) items of
        None \<Rightarrow> None
      | Some x \<Rightarrow> (case entry_link L x of Inl e \<Rightarrow> None | Inr l \<Rightarrow> Some l))"

definition collides :: "library \<Rightarrow> item list \<Rightarrow> nat \<Rightarrow> nat \<Rightarrow> bool" where
  "collides L items n i \<longleftrightarrow>
     collection (items ! n) = collection (items ! i)
     \<and> entry_title L (items ! n) = entry_title L (items ! i)"

definition printed_labels :: "library \<Rightarrow> item list \<Rightarrow> string set" where
  "printed_labels L items = (case listCommand L items of Inl e \<Rightarrow> {} | Inr tree \<Rightarrow> dom tree)"

definition printed_leaf :: "library \<Rightarrow> item list \<Rightarrow> string \<Rightarrow> string \<Rightarrow> string option" where
  "printed_leaf L items c k = (case listCommand L items of Inl e \<Rightarrow> None | Inr tree \<Rightarrow> leaf tree c k)"

definition printed_links :: "library \<Rightarrow> item list \<Rightarrow> string \<Rightarrow> string set" where
  "printed_links L items c =
     (case listCommand L items of
        Inl e \<Rightarrow> {}
      | Inr tree \<Rightarrow> (case tree c of None \<Rightarrow> {} | Some g \<Rightarrow> ran g))"

text \<open>
  The property names with a meaning of their own in this command: \<^verbatim>\<open>__proto__\<close>
  for the objects, \<^verbatim>\<open>hasOwnProperty\<close> for treeify. \<open>plain_names L items\<close> says
  that no collection and no rendered title of the store is one of them.
\<close>

definition reserved_names :: "string set" where
  "reserved_names = {''__proto__'', ''hasOwnProperty''}"

definition plain_names :: "library \<Rightarrow> item list \<Rightarrow> bool" where
  "plain_names L items \<longleftrightarrow>
     (\<forall>x\<in>set items. collection x \<notin> reserved_names \<and> entry_title L x \<notin> reserved_names)"

definition parsable_urls :: "library \<Rightarrow> item list \<Rightarrow> bool" where
  "parsable_urls L items \<longleftrightarrow> (\<forall>x\<in>set items. hostname L (url x) \<noteq> None)"

text \<open>
  \<open>clean C\<close>: the prototype of \<^verbatim>\<open>collections\<close> is still \<^verbatim>\<open>Object.prototype\<close> and
  no branch has a property \<^verbatim>\<open>__proto__\<close>.
\<close>

definition clean :: "js_object \<Rightarrow> bool" where
  "clean C \<longleftrightarrow> proto C = None \<and> (\<forall>c g. own C c = Some g \<longrightarrow> g ''__proto__'' = None)"

subsection \<open>A stand-in for the packages\<close>

text \<open>
  To run the definitions on concrete inputs the fields of \<open>library\<close> need values.
  \<open>stub_library\<close> is a small stand-in that does what the packages do on the inputs
  used below. It normalizes as normalize-url does there: \<^verbatim>\<open>http://\<close> is put before
  a string without a scheme, a slash at the end of the path is removed, and a slash
  in the query string is written \<^verbatim>\<open>%2F\<close>. It tags instead of hashing, accepts the
  strings that contain a colon as URIs, takes what follows \<^verbatim>\<open>://\<close> up to the next
  slash as the host name (none, when that is empty), scrapes the text of the
  \<^verbatim>\<open><title>\<close> element, rejecting a url whose host has no dot, does not style,
  and takes every byte of a string for a character.
\<close>

definition strip_slash :: "string \<Rightarrow> string" where
  "strip_slash u = (if u \<noteq> [] \<and> last u = CHR ''/'' then butlast u else u)"

fun after_first :: "string \<Rightarrow> string \<Rightarrow> string option" where
  "after_first pat [] = (if pat = [] then Some [] else None)"
| "after_first pat (c # cs) =
     (if take (length pat) (c # cs) = pat then Some (drop (length pat) (c # cs))
      else after_first pat cs)"

definition stub_normalize :: "string \<Rightarrow> string" where
  "stub_normalize u =
     (let v = (if after_first ''://'' u = None then ''http://'' @ u else u);
          path = takeWhile (\<lambda>c. c \<noteq> CHR ''?'') v;
          query = dropWhile (\<lambda>c. c \<noteq> CHR ''?'') v
      in strip_slash path @ concat (map (\<lambda>c. if c = CHR ''/'' then ''%2F'' else [c]) query))"

definition stub_hostname :: "string \<Rightarrow> string option" where
  "stub_hostname u =
     (case after_first ''://'' u of
        None \<Rightarrow> None
      | Some rest \<Rightarrow>
          (let h = takeWhile (\<lambda>c. c \<noteq> CHR ''/'') rest in if h = [] then None else Some h))"

definition stub_metascraper :: "string \<Rightarrow> string \<Rightarrow> string option option" where
  "stub_metascraper html u =
     (case stub_hostname u of
        None \<Rightarrow> None
      | Some h \<Rightarrow>
          if CHR ''.'' \<in> set h
          then Some (map_option (takeWhile (\<lambda>c. c \<noteq> CHR ''<'')) (after_first ''<title>'' html))
          else None)"

definition stub_library :: library where
  "stub_library =
     \<lparr>normalizeUrl = (\<lambda>u. Some (stub_normalize u)),
      md5_hex = (\<lambda>n. ''md5:'' @ n),
      isUri = (\<lambda>u. CHR '':'' \<in> set u),
      metascraper = stub_metascraper,
      hostname = stub_hostname,
      green = (\<lambda>s. s),
      blue = (\<lambda>s. s),
      terminalLink = (\<lambda>text u. text @ '' ('' @ u @ '')''),
      code_units = map (\<lambda>c. [c])\<rparr>"

subsection \<open>Sample bookmarks\<close>

definition news_item :: item where
  "news_item =
     \<lparr>hash = ''md5:https://news.example/today'', url = ''https://news.example/today'',
      collection = ''work'', title = Some ''News''\<rparr>"

definition docs_item :: item where
  "docs_item =
     \<lparr>hash = ''md5:https://docs.example/api'', url = ''https://docs.example/api'',
      collection = ''work'', title = Some ''API''\<rparr>"

definition game_item :: item where
  "game_item =
     \<lparr>hash = ''md5:https://game.example'', url = ''https://game.example'',
      collection = ''fun'', title = Some ''Game''\<rparr>"

text \<open>The url of \<open>news_item\<close> once more, in another collection.\<close>

definition news_copy :: item where
  "news_copy =
     \<lparr>hash = ''md5:https://news.example/today'', url = ''https://news.example/today'',
      collection = ''fun'', title = Some ''News again''\<rparr>"

text \<open>The collection and the title of \<open>news_item\<close> once more, at another url.\<close>

definition news_late :: item where
  "news_late =
     \<lparr>hash = ''md5:https://late.example/today'', url = ''https://late.example/today'',
      collection = ''work'', title = Some ''News''\<rparr>"

text \<open>A third bookmark with the collection and the title of \<open>news_item\<close>.\<close>

definition news_later :: item where
  "news_later =
     \<lparr>hash = ''md5:https://later.example/today'', url = ''https://later.example/today'',
      collection = ''work'', title = Some ''News''\<rparr>"

text \<open>A bookmark in a collection that the user named \<^verbatim>\<open>__proto__\<close>.\<close>

definition proto_item :: item where
  "proto_item =
     \<lparr>hash = ''md5:https://proto.example'', url = ''https://proto.example'',
      collection = ''__proto__'', title = Some ''Proto''\<rparr>"

text \<open>What the add command stores for \<^verbatim>\<open>http://example.com\<close>, for
  \<^verbatim>\<open>http://example.com/a?b=c\<close> and for \<^verbatim>\<open>http://example.com/a?b=c/\<close>, with the
  answers of \<open>reading_session\<close>.\<close>

definition http_item :: item where
  "http_item =
     \<lparr>hash = ''md5:http://example.com'', url = ''http://example.com'',
      collection = ''reading'', title = Some ''Example''\<rparr>"

definition query_item :: item where
  "query_item =
     \<lparr>hash = ''md5:http://example.com/a?b=c'', url = ''http://example.com/a?b=c'',
      collection = ''reading'', title = Some ''Example''\<rparr>"

definition query_slash_item :: item where
  "query_slash_item =
     \<lparr>hash = ''md5:http://example.com/a?b=c%2F'', url = ''http://example.com/a?b=c/'',
      collection = ''reading'', title = Some ''Example''\<rparr>"

definition example_item :: item where
  "example_item =
     \<lparr>hash = ''md5:https://example.com'', url = ''https://example.com'',
      collection = ''reading'', title = Some ''Example''\<rparr>"

definition reading_session :: session where
  "reading_session =
     \<lparr>url_answer = ''https://example.com'', collection_answer = ''create collection: reading'',
      title_answer = ''Example'', fetch_race = TimeoutFirst\<rparr>"

section \<open>Properties\<close>

subsection \<open>Removing\<close>

lemma removeItem_drops_matching:
  "filter (\<lambda>x. url x = url it) (removeItem it items) = []"
  by (simp add: removeItem_def)

lemma removeItem_keeps_others:
  "filter (\<lambda>x. url x \<noteq> url it) (removeItem it items) = filter (\<lambda>x. url x \<noteq> url it) items"
  by (simp add: removeItem_def)

lemma removeItem_absent_url:
  "\<forall>x\<in>set items. url x \<noteq> url it \<Longrightarrow> removeItem it items = items"
  by (simp add: removeItem_def)

lemma removeItem_part_000_eq:
  "removeItem_part_000 it items = filter (\<lambda>x. url x = url it) items"
  by (simp add: removeItem_part_000_def)

text \<open>
  C1. \<^verbatim>\<open>removeItem\<close> has to delete the items with the url of the selected item and
  to leave all others. \<open>removeItem\<close> of \<^verbatim>\<open>index.js\<close> does
  (\<open>removeItem_drops_matching\<close>, \<open>removeItem_keeps_others\<close>). The copy in
  \<^verbatim>\<open>src/unnamed/part_000\<close> compares with \<^verbatim>\<open>===\<close>: removing \<open>news_item\<close> from a
  store of three bookmarks keeps \<open>news_item\<close> and deletes the two others.
\<close>

theorem removeItem_part_000_keeps_selected:
  "removeItem_part_000 news_item [news_item, docs_item, game_item] = [news_item]
   \<and> removeItem news_item [news_item, docs_item, game_item] = [docs_item, game_item]"
  by (simp add: removeItem_part_000_def removeItem_def news_item_def docs_item_def game_item_def)

text \<open>
  C8. When two stored items have the same url and different collections, removing
  either of them deletes both: the filter compares urls only, so the two removals
  are the same function, and neither the hash nor the collection of the selected
  item has any influence.
\<close>

theorem removeItem_same_url_deletes_both:
  "x \<in> set items \<Longrightarrow> y \<in> set items \<Longrightarrow> url x = url y \<Longrightarrow> collection x \<noteq> collection y \<Longrightarrow>
     x \<notin> set (removeItem x items) \<and> y \<notin> set (removeItem x items)
     \<and> x \<notin> set (removeItem y items) \<and> y \<notin> set (removeItem y items)
     \<and> removeItem x items = removeItem y items
     \<and> removeItem (x\<lparr>hash := h, collection := c\<rparr>) items = removeItem x items"
  by (simp add: removeItem_def)

theorem removeItem_same_url_deletes_both_witness:
  "news_item \<in> set [news_item, docs_item, news_copy]
   \<and> news_copy \<in> set [news_item, docs_item, news_copy]
   \<and> url news_item = url news_copy \<and> collection news_item \<noteq> collection news_copy
   \<and> removeItem news_item [news_item, docs_item, news_copy] = [docs_item]
   \<and> removeItem news_copy [news_item, docs_item, news_copy] = [docs_item]"
  using removeItem_same_url_deletes_both
    [of news_item "[news_item, docs_item, news_copy]" news_copy]
  by (simp add: removeItem_def news_item_def docs_item_def news_copy_def)

text \<open>
  C9. Removing an item whose url is the url of no stored item has to leave the
  persisted list as it is. \<open>removeItem\<close> of \<^verbatim>\<open>index.js\<close> does
  (\<open>removeItem_absent_url\<close>). The copy in \<^verbatim>\<open>src/unnamed/part_000\<close> keeps the items
  with the url of the selected item only, so it empties the store.
\<close>

theorem removeItem_part_000_absent_url_empties:
  "url game_item \<notin> set (map url [news_item, docs_item])
   \<and> removeItem_part_000 game_item [news_item, docs_item] = []
   \<and> removeItem game_item [news_item, docs_item] = [news_item, docs_item]"
  by (simp add: removeItem_part_000_def removeItem_def news_item_def docs_item_def game_item_def)

subsection \<open>Hashing\<close>

text \<open>
  C3. Two url strings that normalize to the same string have the same hash; when
  normalize-url throws for both, \<^verbatim>\<open>hashUrl\<close> throws for both.
\<close>

theorem hashUrl_normalize_eq:
  "normalizeUrl L a = normalizeUrl L b \<Longrightarrow> hashUrl L a = hashUrl L b"
  by (simp add: hashUrl_def)

theorem hashUrl_normalize_eq_witness:
  "normalizeUrl stub_library ''https://example.com/'' = normalizeUrl stub_library ''https://example.com''
   \<and> hashUrl stub_library ''https://example.com/'' = Inr ''md5:https://example.com''
   \<and> hashUrl stub_library ''https://example.com'' = Inr ''md5:https://example.com''"
proof -
  have same: "normalizeUrl stub_library ''https://example.com/''
              = normalizeUrl stub_library ''https://example.com''"
    by (simp add: stub_library_def stub_normalize_def strip_slash_def Let_def)
  have "hashUrl stub_library ''https://example.com'' = Inr ''md5:https://example.com''"
    by (simp add: hashUrl_def stub_library_def stub_normalize_def strip_slash_def Let_def)
  with same hashUrl_normalize_eq [OF same] show ?thesis by simp
qed

subsection \<open>Fetching the metadata\<close>

lemma got_throwHttpErrors:
  "got True (Response \<lparr>statusCode = 404, body = html\<rparr>) = Inl (HTTPError 404)
   \<and> got False (Response \<lparr>statusCode = 404, body = html\<rparr>) = Inr \<lparr>statusCode = 404, body = html\<rparr>"
  by (simp add: got_def)

text \<open>
  C4. When the timeout settles first, \<^verbatim>\<open>fetchItemMeta\<close> returns the record with the
  url and no title. When the GET settles first with a response, the status has no
  influence: the result is the one for the status 200 with the same body, the body
  goes to the title extractor, whose title is returned, and neither an HTTP error nor
  a request error is raised. The one error after a response is the extractor's own,
  when metascraper rejects.
\<close>

theorem fetchItemMeta_race:
  "fetchItemMeta L u TimeoutFirst = Inr \<lparr>meta_url = u, meta_title = None\<rparr>
   \<and> fetchItemMeta L u (GotFirst (Response \<lparr>statusCode = st, body = html\<rparr>))
       = fetchItemMeta L u (GotFirst (Response \<lparr>statusCode = 200, body = html\<rparr>))
   \<and> fetchItemMeta L u (GotFirst (Response \<lparr>statusCode = st, body = html\<rparr>)) \<noteq> Inl (HTTPError n)
   \<and> fetchItemMeta L u (GotFirst (Response \<lparr>statusCode = st, body = html\<rparr>)) \<noteq> Inl RequestError
   \<and> (\<forall>t. metascraper L html u = Some t \<longrightarrow>
          fetchItemMeta L u (GotFirst (Response \<lparr>statusCode = st, body = html\<rparr>))
            = Inr \<lparr>meta_url = u, meta_title = t\<rparr>)
   \<and> (metascraper L html u = None \<longrightarrow>
          fetchItemMeta L u (GotFirst (Response \<lparr>statusCode = st, body = html\<rparr>))
            = Inl MetascraperError)"
  by (simp add: fetchItemMeta_def got_def split: option.splits)

theorem fetchItemMeta_race_witness:
  "fetchItemMeta stub_library ''https://example.com'' TimeoutFirst
     = Inr \<lparr>meta_url = ''https://example.com'', meta_title = None\<rparr>
   \<and> metascraper stub_library ''<title>Not Found</title>'' ''https://example.com'' = Some (Some ''Not Found'')
   \<and> fetchItemMeta stub_library ''https://example.com''
         (GotFirst (Response \<lparr>statusCode = 404, body = ''<title>Not Found</title>''\<rparr>))
       = Inr \<lparr>meta_url = ''https://example.com'', meta_title = Some ''Not Found''\<rparr>
   \<and> metascraper stub_library ''<title>ok</title>'' ''http://vm:36209/page'' = None
   \<and> fetchItemMeta stub_library ''http://vm:36209/page''
         (GotFirst (Response \<lparr>statusCode = 200, body = ''<title>ok</title>''\<rparr>))
       = Inl MetascraperError"
proof -
  have found: "metascraper stub_library ''<title>Not Found</title>'' ''https://example.com''
                 = Some (Some ''Not Found'')"
    by (simp add: stub_library_def stub_metascraper_def stub_hostname_def Let_def)
  have invalid: "metascraper stub_library ''<title>ok</title>'' ''http://vm:36209/page'' = None"
    by (simp add: stub_library_def stub_metascraper_def stub_hostname_def Let_def)
  note spec = fetchItemMeta_race [of stub_library "''https://example.com''" 404
      "''<title>Not Found</title>''" 0]
  note spec' = fetchItemMeta_race [of stub_library "''http://vm:36209/page''" 200
      "''<title>ok</title>''" 0]
  from spec have "fetchItemMeta stub_library ''https://example.com'' TimeoutFirst
     = Inr \<lparr>meta_url = ''https://example.com'', meta_title = None\<rparr>"
    by (rule conjunct1)
  moreover from spec found have "fetchItemMeta stub_library ''https://example.com''
         (GotFirst (Response \<lparr>statusCode = 404, body = ''<title>Not Found</title>''\<rparr>))
       = Inr \<lparr>meta_url = ''https://example.com'', meta_title = Some ''Not Found''\<rparr>"
    by blast
  moreover from spec' invalid have "fetchItemMeta stub_library ''http://vm:36209/page''
         (GotFirst (Response \<lparr>statusCode = 200, body = ''<title>ok</title>''\<rparr>))
       = Inl MetascraperError"
    by blast
  ultimately show ?thesis using found invalid by blast
qed

subsection \<open>Adding\<close>

lemmas stub_defs = stub_library_def stub_hostname_def stub_normalize_def stub_metascraper_def
  strip_slash_def

lemmas add_defs = addCommand_def given_url_def getItem_def hashUrl_def fetchItemMeta_def
  createItem_def selectCollection_def createCollectionStr_def inputTitle_def inputUrl_def
  addItem_def reading_session_def Let_def

lemma find_hash_Some:
  "x \<in> set items \<Longrightarrow> hash x = h \<Longrightarrow> \<exists>y. find (\<lambda>y. hash y = h) items = Some y \<and> y \<in> set items \<and> hash y = h"
  by (induction items) auto

lemma find_snoc:
  "find P (xs @ [y]) = (case find P xs of None \<Rightarrow> (if P y then Some y else None) | Some x \<Rightarrow> Some x)"
  by (induction xs) auto

lemma addCommand_invalid:
  "\<not> isUri L (given_url S arg) \<Longrightarrow>
     addCommand L S arg items = Inr (err ''The provided url is not valid'', items)"
  by (simp add: addCommand_def)

lemma addCommand_existing:
  "isUri L (given_url S arg) \<Longrightarrow> hashUrl L (given_url S arg) = Inr h \<Longrightarrow>
   find (\<lambda>y. hash y = h) items = Some y \<Longrightarrow>
     addCommand L S arg items
       = Inr (err (''The provided url has already been added to '' @ collection y), items)"
  by (simp add: addCommand_def getItem_def)

lemma addCommand_info:
  assumes "addCommand L S arg items = Inr (info msg, items')"
  shows "\<exists>h t. isUri L (given_url S arg) \<and> hashUrl L (given_url S arg) = Inr h
              \<and> find (\<lambda>y. hash y = h) items = None
              \<and> items' = items @ [\<lparr>hash = h, url = given_url S arg,
                                      collection = selectCollection S, title = t\<rparr>]"
  using assms
  by (auto simp: addCommand_def getItem_def fetchItemMeta_def createItem_def addItem_def got_def Let_def
      split: if_splits sum.splits option.splits race_outcome.splits http_outcome.splits)

text \<open>
  C2, as amended. The url the add command works on is its argument, or the answer of
  the url prompt when the argument is missing. When the hash of that url is the hash
  of a stored item, the command returns without a write: the persisted list is the
  one it was given. When the validity check accepts the url, the command prints the
  error that names the collection of the first stored item with that hash; when the
  check rejects the url, it prints that the url is not valid, and names no
  collection.
\<close>

theorem addCommand_duplicate:
  assumes hashed: "hashUrl L (given_url S arg) = Inr h"
      and stored: "x \<in> set items" "hash x = h"
  shows "\<exists>y. find (\<lambda>y. hash y = h) items = Some y \<and> y \<in> set items \<and> hash y = h
           \<and> addCommand L S arg items
               = Inr (err (if isUri L (given_url S arg)
                           then ''The provided url has already been added to '' @ collection y
                           else ''The provided url is not valid''),
                      items)"
proof -
  from stored obtain y where y: "find (\<lambda>y. hash y = h) items = Some y" "y \<in> set items" "hash y = h"
    using find_hash_Some by blast
  show ?thesis
  proof (cases "isUri L (given_url S arg)")
    case True
    from addCommand_existing [OF True hashed y(1)] True y show ?thesis by auto
  next
    case False
    from addCommand_invalid [OF False] False y show ?thesis by auto
  qed
qed

theorem addCommand_duplicate_witness:
  "hashUrl stub_library (given_url reading_session (Some ''https://news.example/today/''))
       = Inr (hash news_item)
   \<and> news_item \<in> set [docs_item, news_item]
   \<and> isUri stub_library (given_url reading_session (Some ''https://news.example/today/''))
   \<and> addCommand stub_library reading_session (Some ''https://news.example/today/'')
         [docs_item, news_item]
       = Inr (err ''The provided url has already been added to work'', [docs_item, news_item])"
proof -
  let ?arg = "Some ''https://news.example/today/''"
  have valid: "isUri stub_library (given_url reading_session ?arg)"
    by (simp add: given_url_def stub_library_def)
  have hashed: "hashUrl stub_library (given_url reading_session ?arg) = Inr (hash news_item)"
    by (simp add: given_url_def hashUrl_def stub_defs news_item_def Let_def)
  have stored: "news_item \<in> set [docs_item, news_item]"
    by simp
  have first: "find (\<lambda>y. hash y = hash news_item) [docs_item, news_item] = Some news_item"
    by (simp add: news_item_def docs_item_def)
  from addCommand_duplicate [OF hashed stored refl] first valid
  have "addCommand stub_library reading_session ?arg [docs_item, news_item]
          = Inr (err (''The provided url has already been added to '' @ collection news_item),
                 [docs_item, news_item])"
    by auto
  with valid hashed stored show ?thesis
    by (simp add: news_item_def)
qed

text \<open>
  The claim as it was stated fails for \<^verbatim>\<open>add example.com\<close> when
  \<^verbatim>\<open>http://example.com\<close> is stored: the two normalize to the same string, but
  valid-url rejects a string without a scheme, and the check comes before the lookup.
\<close>

theorem addCommand_duplicate_counterexample:
  "hashUrl stub_library ''example.com'' = Inr (hash http_item)
   \<and> http_item \<in> set [http_item]
   \<and> collection http_item = ''reading''
   \<and> addCommand stub_library reading_session (Some ''example.com'') [http_item]
       = Inr (err ''The provided url is not valid'', [http_item])"
  by (simp add: add_defs stub_defs http_item_def)

text \<open>
  C5, as amended. After an add that succeeded for a url \<open>u\<close>, a second add of any
  url that normalize-url maps to the same string as \<open>u\<close> (a url that differs from
  \<open>u\<close> by a slash at the end of its path is one) leaves the persisted list as the
  first add left it, and is rejected as a duplicate when the validity check accepts
  it: the error names the collection chosen in the first add.
\<close>

theorem addCommand_same_normalization_duplicate:
  assumes first: "addCommand L S1 arg1 items = Inr (info msg, items')"
      and same: "normalizeUrl L (given_url S2 arg2) = normalizeUrl L (given_url S1 arg1)"
  shows "addCommand L S2 arg2 items'
           = Inr (err (if isUri L (given_url S2 arg2)
                       then ''The provided url has already been added to '' @ selectCollection S1
                       else ''The provided url is not valid''),
                  items')"
proof (cases "isUri L (given_url S2 arg2)")
  case True
  from addCommand_info [OF first] obtain h t where
    h: "hashUrl L (given_url S1 arg1) = Inr h" and
    fresh: "find (\<lambda>y. hash y = h) items = None" and
    items': "items' = items @ [\<lparr>hash = h, url = given_url S1 arg1,
                                  collection = selectCollection S1, title = t\<rparr>]"
    by blast
  from same h have h2: "hashUrl L (given_url S2 arg2) = Inr h"
    by (simp add: hashUrl_def)
  from fresh have "find (\<lambda>y. hash y = h) items'
      = Some \<lparr>hash = h, url = given_url S1 arg1, collection = selectCollection S1, title = t\<rparr>"
    unfolding items' by (simp add: find_snoc)
  from addCommand_existing [OF True h2 this] True show ?thesis by simp
next
  case False
  from addCommand_invalid [OF False] False show ?thesis by simp
qed

theorem addCommand_same_normalization_duplicate_witness:
  "addCommand stub_library reading_session (Some ''https://example.com'') [news_item]
     = Inr (info ''Following item has been added!'', [news_item, example_item])
   \<and> given_url reading_session (Some ''https://example.com/'')
       = given_url reading_session (Some ''https://example.com'') @ ''/''
   \<and> isUri stub_library (given_url reading_session (Some ''https://example.com/''))
   \<and> normalizeUrl stub_library (given_url reading_session (Some ''https://example.com/''))
       = normalizeUrl stub_library (given_url reading_session (Some ''https://example.com''))
   \<and> addCommand stub_library reading_session (Some ''https://example.com/'')
         [news_item, example_item]
       = Inr (err ''The provided url has already been added to reading'',
              [news_item, example_item])"
proof -
  let ?u = "Some ''https://example.com''" and ?u' = "Some ''https://example.com/''"
  have first: "addCommand stub_library reading_session ?u [news_item]
                 = Inr (info ''Following item has been added!'', [news_item, example_item])"
    by (simp add: add_defs stub_defs news_item_def example_item_def)
  have slash: "given_url reading_session ?u' = given_url reading_session ?u @ ''/''"
    by (simp add: given_url_def)
  have valid: "isUri stub_library (given_url reading_session ?u')"
    by (simp add: given_url_def stub_library_def)
  have same: "normalizeUrl stub_library (given_url reading_session ?u')
                = normalizeUrl stub_library (given_url reading_session ?u)"
    by (simp add: given_url_def stub_defs Let_def)
  have "selectCollection reading_session = ''reading''"
    by (simp add: selectCollection_def createCollectionStr_def reading_session_def)
  with addCommand_same_normalization_duplicate [OF first same] valid
  have "addCommand stub_library reading_session ?u' [news_item, example_item]
          = Inr (err ''The provided url has already been added to reading'',
                 [news_item, example_item])"
    by simp
  with first slash valid same show ?thesis by simp
qed

text \<open>
  The claim as it was stated fails when the slash that makes the difference ends a
  query string: normalize-url keeps it, as \<^verbatim>\<open>%2F\<close>, the hashes differ, and the
  second add succeeds.
\<close>

theorem addCommand_trailing_slash_counterexample:
  "addCommand stub_library reading_session (Some ''http://example.com/a?b=c'') []
     = Inr (info ''Following item has been added!'', [query_item])
   \<and> ''http://example.com/a?b=c/'' = ''http://example.com/a?b=c'' @ ''/''
   \<and> addCommand stub_library reading_session (Some ''http://example.com/a?b=c/'') [query_item]
       = Inr (info ''Following item has been added!'', [query_item, query_slash_item])"
  by (simp add: add_defs stub_defs query_item_def query_slash_item_def)

subsection \<open>Searching collections\<close>

lemma set_uniq_acc: "set (uniq_acc acc xs) = set acc \<union> set xs"
  by (induction xs arbitrary: acc) auto

lemma distinct_uniq_acc: "distinct acc \<Longrightarrow> distinct (uniq_acc acc xs)"
  by (induction xs arbitrary: acc) auto

lemma set_getCollections: "set (getCollections items) = collection ` set items"
  by (simp add: getCollections_def uniq_def set_uniq_acc)

lemma distinct_getCollections: "distinct (getCollections items)"
  by (simp add: getCollections_def uniq_def distinct_uniq_acc)

lemma fuzzy_match_rendered: "fuzzy_match p s = Some (r, sc) \<Longrightarrow> r = s"
  by (auto simp: fuzzy_match_def Let_def split: prod.splits if_splits)

lemma map_string_matches_from:
  "map string (matches_from p i arr) = filter (\<lambda>c. fuzzy_match p c \<noteq> None) arr"
proof (induction arr arbitrary: i)
  case Nil
  then show ?case by simp
next
  case (Cons a arr)
  show ?case
  proof (cases "fuzzy_match p a")
    case None
    with Cons show ?thesis by simp
  next
    case (Some m)
    obtain r sc where m: "m = (r, sc)" by (cases m)
    with Some have "r = a" by (simp add: fuzzy_match_rendered)
    with Some m Cons show ?thesis by simp
  qed
qed

lemma set_matches_from:
  "string ` set (matches_from p i arr) = {c \<in> set arr. fuzzy_match p c \<noteq> None}"
proof -
  have "string ` set (matches_from p i arr) = set (map string (matches_from p i arr))"
    by simp
  also have "\<dots> = {c \<in> set arr. fuzzy_match p c \<noteq> None}"
    unfolding map_string_matches_from by simp
  finally show ?thesis .
qed

lemma matches_from_sound:
  "r \<in> set (matches_from p i arr) \<Longrightarrow> fuzzy_match p (original r) = Some (string r, score r) \<and> original r \<in> set arr"
  by (induction arr arbitrary: i) (auto split: option.splits)

lemma set_insert_ranked: "set (insert_ranked a bs) = insert a (set bs)"
  by (induction bs) auto

lemma set_foldr_insert_ranked: "set (foldr insert_ranked xs []) = set xs"
  by (induction xs) (auto simp: set_insert_ranked)

lemma sorted_insert_ranked:
  "sorted_wrt (\<lambda>a b. score b \<le> score a) bs \<Longrightarrow> sorted_wrt (\<lambda>a b. score b \<le> score a) (insert_ranked a bs)"
proof (induction bs)
  case Nil
  then show ?case by simp
next
  case (Cons b bs)
  show ?case
  proof (cases "ranks_before a b")
    case True
    then have "score b \<le> score a" by (auto simp: ranks_before_def)
    with Cons.prems True show ?thesis by (auto intro: order_trans)
  next
    case False
    then have "score a \<le> score b" by (auto simp: ranks_before_def not_less)
    with Cons False show ?thesis by (auto simp: set_insert_ranked)
  qed
qed

lemma sorted_foldr_insert_ranked:
  "sorted_wrt (\<lambda>a b. score b \<le> score a) (foldr insert_ranked xs [])"
  by (induction xs) (auto intro: sorted_insert_ranked)

lemma set_fuzzy_filter:
  "string ` set (fuzzy_filter p arr) = {c \<in> set arr. fuzzy_match p c \<noteq> None}"
  by (auto simp: fuzzy_filter_def set_foldr_insert_ranked set_matches_from simp del: matches_from.simps)

lemma sorted_fuzzy_filter:
  "sorted_wrt (\<lambda>a b. score b \<le> score a) (fuzzy_filter p arr)"
  by (simp add: fuzzy_filter_def sorted_foldr_insert_ranked)

lemma fuzzy_filter_sound:
  "r \<in> set (fuzzy_filter p arr) \<Longrightarrow> fuzzy_match p (original r) = Some (string r, score r)"
  by (auto simp: fuzzy_filter_def set_foldr_insert_ranked dest: matches_from_sound split: if_splits)

lemma zzz_work: "fuzzy_match ''zzz'' ''work'' = None"
  by (simp add: fuzzy_match_def toLowerCase_def)

lemma zzz_fun: "fuzzy_match ''zzz'' ''fun'' = None"
  by (simp add: fuzzy_match_def toLowerCase_def)


text \<open>
  C6. For a missing or empty input \<^verbatim>\<open>fuzzySearchCollections\<close> returns
  \<^verbatim>\<open>getCollections()\<close> as it is: every collection label of the store, each once.
  For an input that is not empty it returns the strings of \<^verbatim>\<open>fuzzy.filter\<close>: the
  labels that the matcher matches, none else, in the order of the matcher's ranking,
  which is by falling score. When the collections are \<^verbatim>\<open>["work", "fun"]\<close> the
  input \<^verbatim>\<open>"zzz"\<close> gives the empty list.
\<close>

theorem fuzzySearchCollections_spec:
  "fuzzySearchCollections None items = getCollections items
   \<and> fuzzySearchCollections (Some []) items = getCollections items
   \<and> set (getCollections items) = collection ` set items
   \<and> distinct (getCollections items)
   \<and> (i \<noteq> [] \<longrightarrow>
        fuzzySearchCollections (Some i) items = map string (fuzzy_filter i (getCollections items))
        \<and> set (fuzzySearchCollections (Some i) items)
            = {c \<in> collection ` set items. fuzzy_match i c \<noteq> None}
        \<and> sorted_wrt (\<lambda>a b. score b \<le> score a) (fuzzy_filter i (getCollections items))
        \<and> (\<forall>r \<in> set (fuzzy_filter i (getCollections items)).
              fuzzy_match i (original r) = Some (string r, score r)))
   \<and> (getCollections items = [''work'', ''fun''] \<longrightarrow>
        fuzzySearchCollections (Some ''zzz'') items = [])"
proof -
  have zzz: "fuzzy_filter ''zzz'' [''work'', ''fun''] = []"
    by (simp add: fuzzy_filter_def zzz_work zzz_fun)
  show ?thesis
    by (simp add: fuzzySearchCollections_def set_getCollections distinct_getCollections
        set_fuzzy_filter sorted_fuzzy_filter fuzzy_filter_sound zzz)
qed

theorem fuzzySearchCollections_spec_witness:
  "getCollections [news_item, docs_item, game_item] = [''work'', ''fun'']
   \<and> fuzzySearchCollections None [news_item, docs_item, game_item] = [''work'', ''fun'']
   \<and> fuzzySearchCollections (Some ''zzz'') [news_item, docs_item, game_item] = []
   \<and> ''u'' \<noteq> []
   \<and> fuzzySearchCollections (Some ''u'') [news_item, docs_item, game_item] = [''fun'']"
proof -
  let ?items = "[news_item, docs_item, game_item]"
  have cs: "getCollections ?items = [''work'', ''fun'']"
    by (simp add: getCollections_def uniq_def news_item_def docs_item_def game_item_def)
  note zzz = fuzzySearchCollections_spec [of ?items "''zzz''"]
  note u = fuzzySearchCollections_spec [of ?items "''u''"]
  from zzz have "fuzzySearchCollections None ?items = getCollections ?items"
    by (rule conjunct1)
  with cs have none: "fuzzySearchCollections None ?items = [''work'', ''fun'']"
    by simp
  from zzz have "getCollections ?items = [''work'', ''fun'']
                   \<longrightarrow> fuzzySearchCollections (Some ''zzz'') ?items = []"
    by blast
  with cs have no_match: "fuzzySearchCollections (Some ''zzz'') ?items = []"
    by blast
  have typed: "''u'' \<noteq> []"
    by simp
  from u have "''u'' \<noteq> [] \<longrightarrow> fuzzySearchCollections (Some ''u'') ?items
                 = map string (fuzzy_filter ''u'' (getCollections ?items))"
    by blast
  with typed have "fuzzySearchCollections (Some ''u'') ?items
                 = map string (fuzzy_filter ''u'' (getCollections ?items))"
    by blast
  also have "\<dots> = [''fun'']"
    unfolding cs by (simp add: fuzzy_filter_def fuzzy_match_def toLowerCase_def)
  finally have one: "fuzzySearchCollections (Some ''u'') ?items = [''fun'']" .
  from cs none no_match typed one show ?thesis by blast
qed

subsection \<open>Listing\<close>

lemma clean_empty: "clean \<lparr>own = Map.empty, proto = None\<rparr>"
  by (simp add: clean_def)

lemma get_property_clean:
  "clean C \<Longrightarrow> get_property C c = (case own C c of None \<Rightarrow> JUndefined | Some g \<Rightarrow> JObject g)"
  by (simp add: clean_def get_property_def split: option.splits)

lemma object_assign_clean:
  assumes "clean C"
  shows "object_assign L T (get_property C c) = T ++ (case own C c of None \<Rightarrow> Map.empty | Some g \<Rightarrow> g)"
proof (cases "own C c")
  case None
  with assms show ?thesis by (simp add: get_property_clean object_assign_def)
next
  case (Some g)
  with assms have "g ''__proto__'' = None" by (auto simp: clean_def)
  with Some assms show ?thesis
    by (auto simp: get_property_clean object_assign_def map_add_def fun_eq_iff split: option.splits)
qed

lemma step_clean:
  assumes "clean C" and "c \<noteq> ''__proto__''" and "k \<noteq> ''__proto__''"
  shows "clean (set_property C c (object_assign L [k \<mapsto> l] (get_property C c)))"
  using assms
  by (auto simp: object_assign_clean set_property_def clean_def map_add_def split: option.splits if_splits)

lemma step_leaf:
  assumes "clean C" and "c \<noteq> ''__proto__''"
  shows "leaf (own (set_property C c (object_assign L [k \<mapsto> l] (get_property C c)))) c' k'
         = (if c' = c
            then (case leaf (own C) c k' of Some v \<Rightarrow> Some v | None \<Rightarrow> if k' = k then Some l else None)
            else leaf (own C) c' k')"
  using assms
  by (auto simp: object_assign_clean set_property_def leaf_def map_add_def split: option.splits)

lemma step_dom:
  assumes "c \<noteq> ''__proto__''"
  shows "dom (own (set_property C c T)) = insert c (dom (own C))"
  using assms by (simp add: set_property_def)

lemma list_loop_clean:
  "list_loop L items C = Inr C' \<Longrightarrow> clean C \<Longrightarrow> plain_names L items \<Longrightarrow>
     clean C' \<and> dom (own C') = dom (own C) \<union> collection ` set items \<and>
     (\<forall>c k. leaf (own C') c k
             = (case leaf (own C) c k of Some v \<Rightarrow> Some v | None \<Rightarrow> first_leaf L items c k))"
proof (induction items arbitrary: C)
  case Nil
  then show ?case by (simp add: first_leaf_def split: option.splits)
next
  case (Cons it items)
  from Cons.prems(1) obtain l where l: "entry_link L it = Inr l"
    by (auto split: sum.splits)
  from Cons.prems(3) have names: "collection it \<noteq> ''__proto__''" "entry_title L it \<noteq> ''__proto__''"
    and rest_names: "plain_names L items"
    by (auto simp: plain_names_def reserved_names_def)
  let ?C = "set_property C (collection it)
              (object_assign L [entry_title L it \<mapsto> l] (get_property C (collection it)))"
  from Cons.prems(1) l have run: "list_loop L items ?C = Inr C'" by simp
  from Cons.prems(2) names have cl: "clean ?C" by (rule step_clean)
  from Cons.IH [OF run cl rest_names] have cl': "clean C'"
    and d: "dom (own C') = dom (own ?C) \<union> collection ` set items"
    and rest: "\<And>c k. leaf (own C') c k
                 = (case leaf (own ?C) c k of Some v \<Rightarrow> Some v | None \<Rightarrow> first_leaf L items c k)"
    by auto
  have "leaf (own C') c k
          = (case leaf (own C) c k of Some v \<Rightarrow> Some v | None \<Rightarrow> first_leaf L (it # items) c k)" for c k
    unfolding rest step_leaf [OF Cons.prems(2) names(1)]
    using l by (auto simp: first_leaf_def split: option.splits)
  moreover from d names(1) have "dom (own C') = dom (own C) \<union> collection ` set (it # items)"
    by (simp add: step_dom)
  ultimately show ?case using cl' by blast
qed

lemma list_loop_links:
  "list_loop L items C = Inr C' \<Longrightarrow> x \<in> set items \<Longrightarrow> \<exists>l. entry_link L x = Inr l"
  by (induction items arbitrary: C) (auto split: sum.splits)

lemma list_loop_total:
  "parsable_urls L items \<Longrightarrow> \<exists>C'. list_loop L items C = Inr C'"
  by (induction items arbitrary: C) (auto simp: entry_link_def parsable_urls_def)

lemma listCommand_total:
  "(\<exists>tree. listCommand L items = Inr tree) \<longleftrightarrow> parsable_urls L items"
proof
  assume "\<exists>tree. listCommand L items = Inr tree"
  then obtain C where "list_loop L items \<lparr>own = Map.empty, proto = None\<rparr> = Inr C"
    by (auto simp: listCommand_def split: sum.splits)
  then have "\<exists>l. entry_link L x = Inr l" if "x \<in> set items" for x
    using that by (rule list_loop_links)
  then show "parsable_urls L items"
    by (fastforce simp: entry_link_def parsable_urls_def split: option.splits)
next
  assume "parsable_urls L items"
  then obtain C where "list_loop L items \<lparr>own = Map.empty, proto = None\<rparr> = Inr C"
    using list_loop_total by blast
  then show "\<exists>tree. listCommand L items = Inr tree"
    by (simp add: listCommand_def)
qed

lemma listCommand_tree:
  assumes "listCommand L items = Inr tree" and "plain_names L items"
  shows "dom tree = collection ` set items" and "leaf tree c k = first_leaf L items c k"
proof -
  from assms(1) obtain C where C: "list_loop L items \<lparr>own = Map.empty, proto = None\<rparr> = Inr C"
    and tree: "tree = own C"
    by (auto simp: listCommand_def split: sum.splits)
  from list_loop_clean [OF C clean_empty assms(2)]
  show "dom tree = collection ` set items" and "leaf tree c k = first_leaf L items c k"
    by (simp_all add: tree leaf_def)
qed

lemma first_leaf_Some:
  assumes "first_leaf L items c k = Some v"
  shows "\<exists>m<length items. collection (items ! m) = c \<and> entry_title L (items ! m) = k
           \<and> entry_link L (items ! m) = Inr v
           \<and> (\<forall>n<m. \<not> (collection (items ! n) = c \<and> entry_title L (items ! n) = k))"
  using assms
  by (auto simp: first_leaf_def find_Some_iff split: option.splits sum.splits)

lemma first_leaf_present:
  assumes "x \<in> set items" and "parsable_urls L items"
  shows "first_leaf L items (collection x) (entry_title L x) \<noteq> None"
proof -
  from assms(1) have "find (\<lambda>y. collection y = collection x \<and> entry_title L y = entry_title L x) items \<noteq> None"
    by (auto simp: find_None_iff)
  then obtain y where y: "find (\<lambda>y. collection y = collection x \<and> entry_title L y = entry_title L x) items = Some y"
    by blast
  then have "y \<in> set items"
    by (auto simp: find_Some_iff)
  with assms(2) obtain h where "hostname L (url y) = Some h"
    by (auto simp: parsable_urls_def)
  with y show ?thesis by (simp add: first_leaf_def entry_link_def)
qed

lemma first_leaf_first:
  assumes "i < length items" and "\<forall>n<i. \<not> collides L items n i" and "entry_link L (items ! i) = Inr l"
  shows "first_leaf L items (collection (items ! i)) (entry_title L (items ! i)) = Some l"
proof -
  have "find (\<lambda>x. collection x = collection (items ! i) \<and> entry_title L x = entry_title L (items ! i)) items
          = Some (items ! i)"
    using assms(1,2) unfolding find_Some_iff collides_def by blast
  with assms(3) show ?thesis by (simp add: first_leaf_def)
qed

lemma object_assign_object:
  "g ''__proto__'' = None \<Longrightarrow> object_assign L T (JObject g) = T ++ g"
  by (auto simp: object_assign_def map_add_def fun_eq_iff split: option.splits)

lemma object_assign_undefined: "object_assign L T JUndefined = T"
  by (simp add: object_assign_def)

lemma link_news: "entry_link stub_library news_item
    = Inr (''news.example/'' @ ellipsis @ '' (https://news.example/today)'')"
  by (simp add: entry_link_def stub_defs news_item_def Let_def)

lemma link_late: "entry_link stub_library news_late
    = Inr (''late.example/'' @ ellipsis @ '' (https://late.example/today)'')"
  by (simp add: entry_link_def stub_defs news_late_def Let_def)

lemma link_later: "entry_link stub_library news_later
    = Inr (''later.example/'' @ ellipsis @ '' (https://later.example/today)'')"
  by (simp add: entry_link_def stub_defs news_later_def Let_def)

lemma link_game: "entry_link stub_library game_item
    = Inr (''game.example/'' @ ellipsis @ '' (https://game.example)'')"
  by (simp add: entry_link_def stub_defs game_item_def Let_def)

lemma link_proto: "entry_link stub_library proto_item
    = Inr (''proto.example/'' @ ellipsis @ '' (https://proto.example)'')"
  by (simp add: entry_link_def stub_defs proto_item_def Let_def)

lemma title_stub: "entry_title stub_library it = truncate 40 (title it)"
  by (simp add: entry_title_def stub_library_def)

lemma run_two:
  "listCommand stub_library [news_item, news_late]
     = Inr [''work'' \<mapsto> [''News'' \<mapsto> ''news.example/'' @ ellipsis @ '' (https://news.example/today)'']]"
  by (simp add: listCommand_def entry_link_def entry_title_def stub_defs Let_def get_property_def set_property_def
      object_assign_object object_assign_undefined truncate_def news_item_def news_late_def)

lemma run_three:
  "listCommand stub_library [news_item, news_late, news_later]
     = Inr [''work'' \<mapsto> [''News'' \<mapsto> ''news.example/'' @ ellipsis @ '' (https://news.example/today)'']]"
  by (simp add: listCommand_def entry_link_def entry_title_def stub_defs Let_def get_property_def set_property_def
      object_assign_object object_assign_undefined truncate_def news_item_def news_late_def news_later_def)

lemma run_proto:
  "listCommand stub_library [proto_item] = Inr Map.empty"
  by (simp add: listCommand_def entry_link_def entry_title_def stub_defs Let_def get_property_def set_property_def
      object_assign_undefined truncate_def proto_item_def)

lemma parsable_two: "parsable_urls stub_library [news_item, game_item]"
  by (simp add: parsable_urls_def stub_defs news_item_def game_item_def Let_def)

lemma plain_two: "plain_names stub_library [news_item, game_item]"
  by (simp add: plain_names_def reserved_names_def title_stub truncate_def news_item_def game_item_def)

lemma parsable_three: "parsable_urls stub_library [news_item, game_item, news_late]"
  by (simp add: parsable_urls_def stub_defs news_item_def game_item_def news_late_def Let_def)

lemma plain_three: "plain_names stub_library [news_item, game_item, news_late]"
  by (simp add: plain_names_def reserved_names_def title_stub truncate_def news_item_def
      game_item_def news_late_def)

text \<open>
  C7, as amended. When \<^verbatim>\<open>new URL\<close> parses every stored url and no collection and no
  rendered title is \<^verbatim>\<open>__proto__\<close> or \<^verbatim>\<open>hasOwnProperty\<close>, the list command prints
  a tree with these properties. Its branches are the collection labels of the store.
  Every leaf of a branch is the rendered title and the link of a stored item whose
  collection is the label of that branch: nothing under "work" comes from an item of
  "fun". Every stored item that is the first with its collection and rendered title
  is a leaf, with its own link, of the branch of its own collection. The title of
  every stored item is a leaf of the branch of its own collection; for an item that
  is not the first with that title the link there is the one of the first.
\<close>

theorem listCommand_groups:
  assumes "parsable_urls L items" and "plain_names L items"
  shows "\<exists>tree. listCommand L items = Inr tree
           \<and> dom tree = collection ` set items
           \<and> (\<forall>c g k v. tree c = Some g \<longrightarrow> g k = Some v \<longrightarrow>
                 (\<exists>x\<in>set items. collection x = c \<and> entry_title L x = k \<and> entry_link L x = Inr v))
           \<and> (\<forall>i<length items. (\<forall>n<i. \<not> collides L items n i) \<longrightarrow>
                 (\<exists>g l. tree (collection (items ! i)) = Some g \<and> entry_link L (items ! i) = Inr l
                        \<and> g (entry_title L (items ! i)) = Some l))
           \<and> (\<forall>x\<in>set items. \<exists>g l. tree (collection x) = Some g \<and> g (entry_title L x) = Some l)"
proof -
  from assms(1) obtain tree where tree: "listCommand L items = Inr tree"
    using listCommand_total by blast
  note leaf = listCommand_tree(2) [OF tree assms(2)]
  have labels: "dom tree = collection ` set items"
    using tree assms(2) by (rule listCommand_tree(1))
  have only: "\<exists>x\<in>set items. collection x = c \<and> entry_title L x = k \<and> entry_link L x = Inr v"
    if "tree c = Some g" and "g k = Some v" for c g k v
  proof -
    from that have "leaf tree c k = Some v" by (simp add: leaf_def)
    then have "first_leaf L items c k = Some v" by (simp add: leaf)
    from first_leaf_Some [OF this] show ?thesis by (metis nth_mem)
  qed
  have own_link: "\<exists>g l. tree (collection (items ! i)) = Some g \<and> entry_link L (items ! i) = Inr l
                        \<and> g (entry_title L (items ! i)) = Some l"
    if "i < length items" and "\<forall>n<i. \<not> collides L items n i" for i
  proof -
    from that(1) have "items ! i \<in> set items" by simp
    with assms(1) obtain h where "hostname L (url (items ! i)) = Some h"
      unfolding parsable_urls_def by blast
    then obtain l where l: "entry_link L (items ! i) = Inr l"
      by (simp add: entry_link_def)
    from first_leaf_first [OF that l] have "leaf tree (collection (items ! i)) (entry_title L (items ! i)) = Some l"
      by (simp add: leaf)
    with l show ?thesis by (auto simp: leaf_def split: option.splits)
  qed
  have titled: "\<exists>g l. tree (collection x) = Some g \<and> g (entry_title L x) = Some l"
    if "x \<in> set items" for x
  proof -
    from first_leaf_present [OF that assms(1)]
    have "leaf tree (collection x) (entry_title L x) \<noteq> None" by (simp add: leaf)
    then show ?thesis by (auto simp: leaf_def split: option.splits)
  qed
  from tree labels only own_link titled show ?thesis by blast
qed

theorem listCommand_groups_witness:
  "parsable_urls stub_library [news_item, game_item]
   \<and> plain_names stub_library [news_item, game_item]
   \<and> printed_labels stub_library [news_item, game_item] = {''work'', ''fun''}
   \<and> printed_leaf stub_library [news_item, game_item] ''work'' ''News''
       = Some (''news.example/'' @ ellipsis @ '' (https://news.example/today)'')
   \<and> printed_leaf stub_library [news_item, game_item] ''fun'' ''Game''
       = Some (''game.example/'' @ ellipsis @ '' (https://game.example)'')"
proof -
  let ?items = "[news_item, game_item]"
  have news: "collection news_item = ''work''" "entry_title stub_library news_item = ''News''"
    by (simp_all add: title_stub truncate_def news_item_def)
  have game: "collection game_item = ''fun''" "entry_title stub_library game_item = ''Game''"
    by (simp_all add: title_stub truncate_def game_item_def)
  from listCommand_groups [OF parsable_two plain_two] obtain tree where
    tree: "listCommand stub_library ?items = Inr tree" and
    labels: "dom tree = collection ` set ?items" and
    own_link: "\<forall>i<length ?items. (\<forall>n<i. \<not> collides stub_library ?items n i) \<longrightarrow>
                 (\<exists>g l. tree (collection (?items ! i)) = Some g \<and> entry_link stub_library (?items ! i) = Inr l
                        \<and> g (entry_title stub_library (?items ! i)) = Some l)"
    by blast
  from labels have "printed_labels stub_library ?items = {''work'', ''fun''}"
    by (simp add: printed_labels_def tree news game)
  moreover from own_link [rule_format, of 0]
  have "leaf tree ''work'' ''News'' = Some (''news.example/'' @ ellipsis @ '' (https://news.example/today)'')"
    by (auto simp: leaf_def link_news news)
  then have "printed_leaf stub_library ?items ''work'' ''News''
       = Some (''news.example/'' @ ellipsis @ '' (https://news.example/today)'')"
    by (simp add: printed_leaf_def tree)
  moreover have "\<forall>n<1. \<not> collides stub_library ?items n 1"
    by (simp add: collides_def news game)
  with own_link [rule_format, of 1]
  have "leaf tree ''fun'' ''Game'' = Some (''game.example/'' @ ellipsis @ '' (https://game.example)'')"
    by (auto simp: leaf_def link_game game)
  then have "printed_leaf stub_library ?items ''fun'' ''Game''
       = Some (''game.example/'' @ ellipsis @ '' (https://game.example)'')"
    by (simp add: printed_leaf_def tree)
  ultimately show ?thesis using parsable_two plain_two by blast
qed

text \<open>
  The claim as it was stated fails for a store with two bookmarks of the same
  collection and title: the tree has the branch "work" with one leaf, the link of the
  first bookmark, and the link of the second is printed nowhere.
\<close>

theorem listCommand_groups_counterexample:
  "collection news_late = ''work'' \<and> entry_title stub_library news_late = ''News''
   \<and> entry_link stub_library news_late = Inr (''late.example/'' @ ellipsis @ '' (https://late.example/today)'')
   \<and> printed_labels stub_library [news_item, news_late] = {''work''}
   \<and> printed_links stub_library [news_item, news_late] ''work''
       = {''news.example/'' @ ellipsis @ '' (https://news.example/today)''}
   \<and> ''late.example/'' @ ellipsis @ '' (https://late.example/today)''
       \<noteq> ''news.example/'' @ ellipsis @ '' (https://news.example/today)''"
proof -
  have "collection news_late = ''work''" and "entry_title stub_library news_late = ''News''"
    by (simp_all add: title_stub truncate_def news_late_def)
  moreover have "printed_labels stub_library [news_item, news_late] = {''work''}"
    by (simp add: printed_labels_def run_two)
  moreover have "printed_links stub_library [news_item, news_late] ''work''
       = {''news.example/'' @ ellipsis @ '' (https://news.example/today)''}"
    by (simp add: printed_links_def run_two)
  moreover have "''late.example/'' @ ellipsis @ '' (https://late.example/today)''
       \<noteq> ''news.example/'' @ ellipsis @ '' (https://news.example/today)''"
    by simp
  ultimately show ?thesis using link_late by blast
qed

text \<open>
  A collection that the user named \<^verbatim>\<open>__proto__\<close> gets no branch at all: the
  assignment replaces the prototype of \<^verbatim>\<open>collections\<close>.
\<close>

lemma listCommand_proto_label:
  "collection proto_item = ''__proto__''
   \<and> printed_labels stub_library [proto_item] = {}
   \<and> printed_leaf stub_library [proto_item] ''__proto__'' ''Proto'' = None"
proof -
  have "collection proto_item = ''__proto__''"
    by (simp add: proto_item_def)
  moreover have "printed_labels stub_library [proto_item] = {}"
    by (simp add: printed_labels_def run_proto)
  moreover have "printed_leaf stub_library [proto_item] ''__proto__'' ''Proto'' = None"
    by (simp add: printed_leaf_def leaf_def run_proto)
  ultimately show ?thesis by blast
qed

text \<open>
  C10, as amended. When every stored url parses, no collection and no rendered title
  is \<^verbatim>\<open>__proto__\<close> or \<^verbatim>\<open>hasOwnProperty\<close>, and the stored items at the positions
  \<open>i < j\<close> have the same collection and the same title after truncation to 40
  characters, the list command prints a tree in which the branch of that collection
  has that title as a leaf, once, a branch being a map. Its link is the one of the
  first stored item with that collection and rendered title, at a position
  \<open>m \<le> i\<close>: it is the item at \<open>i\<close>, the earlier of the two, when no item before
  \<open>i\<close> has the same collection and rendered title. The item at \<open>j\<close> is left out
  without an error: every leaf of the branch is the title and the link of a stored
  item at another position.
\<close>

theorem listCommand_same_title:
  assumes "parsable_urls L items" and "plain_names L items"
      and "i < j" and "j < length items"
      and "collection (items ! i) = collection (items ! j)"
      and "truncate 40 (title (items ! i)) = truncate 40 (title (items ! j))"
  shows "\<exists>tree g l m. listCommand L items = Inr tree
           \<and> tree (collection (items ! j)) = Some g
           \<and> g (entry_title L (items ! j)) = Some l
           \<and> m \<le> i \<and> collides L items m j \<and> (\<forall>n<m. \<not> collides L items n j)
           \<and> entry_link L (items ! m) = Inr l
           \<and> ((\<forall>n<i. \<not> collides L items n i) \<longrightarrow> m = i)
           \<and> (\<forall>k v. g k = Some v \<longrightarrow>
                 (\<exists>n<length items. n \<noteq> j \<and> collection (items ! n) = collection (items ! j)
                     \<and> entry_title L (items ! n) = k \<and> entry_link L (items ! n) = Inr v))"
proof -
  let ?c = "collection (items ! j)" and ?k = "entry_title L (items ! j)"
  from assms(1) obtain tree where tree: "listCommand L items = Inr tree"
    using listCommand_total by blast
  note leaf = listCommand_tree(2) [OF tree assms(2)]
  from assms(4) have "items ! j \<in> set items" by simp
  from first_leaf_present [OF this assms(1)] obtain l where l: "first_leaf L items ?c ?k = Some l"
    by blast
  from first_leaf_Some [OF l] obtain m where m:
    "collection (items ! m) = ?c" "entry_title L (items ! m) = ?k" "entry_link L (items ! m) = Inr l"
    "\<forall>n<m. \<not> (collection (items ! n) = ?c \<and> entry_title L (items ! n) = ?k)"
    by blast
  from assms(5,6) have ij: "collides L items i j"
    by (simp add: collides_def entry_title_def)
  with m(4) have mi: "m \<le> i" unfolding collides_def by (meson not_le)
  from l have "leaf tree ?c ?k = Some l" by (simp add: leaf)
  then obtain g where g: "tree ?c = Some g" "g ?k = Some l"
    by (auto simp: leaf_def split: option.splits)
  have first_i: "m = i" if "\<forall>n<i. \<not> collides L items n i"
  proof (rule ccontr)
    assume "m \<noteq> i"
    with mi have "m < i" by simp
    with that have "\<not> collides L items m i" by blast
    with m(1,2) ij show False by (simp add: collides_def)
  qed
  have others: "\<exists>n<length items. n \<noteq> j \<and> collection (items ! n) = ?c
                     \<and> entry_title L (items ! n) = k \<and> entry_link L (items ! n) = Inr v"
    if "g k = Some v" for k v
  proof -
    from that g(1) have "leaf tree ?c k = Some v" by (simp add: leaf_def)
    then have "first_leaf L items ?c k = Some v" by (simp add: leaf)
    from first_leaf_Some [OF this] obtain n where n: "n < length items"
      "collection (items ! n) = ?c" "entry_title L (items ! n) = k" "entry_link L (items ! n) = Inr v"
      "\<forall>n'<n. \<not> (collection (items ! n') = ?c \<and> entry_title L (items ! n') = k)"
      by blast
    have "n \<noteq> j"
    proof
      assume "n = j"
      with n(3) have "k = ?k" by simp
      with n(5) \<open>n = j\<close> have "\<forall>n'<j. \<not> (collection (items ! n') = ?c \<and> entry_title L (items ! n') = ?k)"
        by simp
      with assms(3) ij show False by (simp add: collides_def)
    qed
    with n show ?thesis by blast
  qed
  from m(1,2) have "collides L items m j" by (simp add: collides_def)
  moreover from m(4) have "\<forall>n<m. \<not> collides L items n j" by (simp add: collides_def)
  ultimately show ?thesis
    using tree g mi m(3) first_i others by blast
qed

theorem listCommand_same_title_witness:
  "parsable_urls stub_library [news_item, game_item, news_late]
   \<and> plain_names stub_library [news_item, game_item, news_late]
   \<and> (0::nat) < 2 \<and> 2 < length [news_item, game_item, news_late]
   \<and> collection ([news_item, game_item, news_late] ! 0) = collection ([news_item, game_item, news_late] ! 2)
   \<and> truncate 40 (title ([news_item, game_item, news_late] ! 0))
       = truncate 40 (title ([news_item, game_item, news_late] ! 2))
   \<and> url news_item \<noteq> url news_late
   \<and> entry_link stub_library news_item
       = Inr (''news.example/'' @ ellipsis @ '' (https://news.example/today)'')
   \<and> printed_leaf stub_library [news_item, game_item, news_late] ''work'' ''News''
       = Some (''news.example/'' @ ellipsis @ '' (https://news.example/today)'')"
proof -
  let ?items = "[news_item, game_item, news_late]"
  have lt: "(0::nat) < 2" and len: "2 < length ?items"
    by simp_all
  have coll: "collection (?items ! 0) = collection (?items ! 2)"
    by (simp add: news_item_def news_late_def)
  have trunc: "truncate 40 (title (?items ! 0)) = truncate 40 (title (?items ! 2))"
    by (simp add: news_item_def news_late_def)
  have urls: "url news_item \<noteq> url news_late"
    by (simp add: news_item_def news_late_def)
  from listCommand_same_title [OF parsable_three plain_three lt len coll trunc] obtain tree g l m where
    tree: "listCommand stub_library ?items = Inr tree" and
    g: "tree (collection (?items ! 2)) = Some g" "g (entry_title stub_library (?items ! 2)) = Some l" and
    m: "m \<le> 0" "entry_link stub_library (?items ! m) = Inr l"
    by blast
  have late: "collection news_late = ''work''" "entry_title stub_library news_late = ''News''"
    by (simp_all add: title_stub truncate_def news_late_def)
  from m have "l = ''news.example/'' @ ellipsis @ '' (https://news.example/today)''"
    by (simp add: link_news)
  with g have "leaf tree ''work'' ''News''
       = Some (''news.example/'' @ ellipsis @ '' (https://news.example/today)'')"
    by (simp add: leaf_def late)
  then have "printed_leaf stub_library ?items ''work'' ''News''
       = Some (''news.example/'' @ ellipsis @ '' (https://news.example/today)'')"
    by (simp add: printed_leaf_def tree)
  with parsable_three plain_three lt len coll trunc urls link_news show ?thesis by blast
qed

text \<open>
  The claim as it was stated fails for three bookmarks of the same collection and
  title: for the second and the third the leaf is not the link of the second, the
  earlier of the two, but the link of the first.
\<close>

theorem listCommand_same_title_counterexample:
  "collection ([news_item, news_late, news_later] ! 1) = collection ([news_item, news_late, news_later] ! 2)
   \<and> truncate 40 (title ([news_item, news_late, news_later] ! 1))
       = truncate 40 (title ([news_item, news_late, news_later] ! 2))
   \<and> entry_title stub_library ([news_item, news_late, news_later] ! 2) = ''News''
   \<and> entry_link stub_library ([news_item, news_late, news_later] ! 1)
       = Inr (''late.example/'' @ ellipsis @ '' (https://late.example/today)'')
   \<and> printed_leaf stub_library [news_item, news_late, news_later] ''work'' ''News''
       = Some (''news.example/'' @ ellipsis @ '' (https://news.example/today)'')
   \<and> ''late.example/'' @ ellipsis @ '' (https://late.example/today)''
       \<noteq> ''news.example/'' @ ellipsis @ '' (https://news.example/today)''"
proof -
  have "collection ([news_item, news_late, news_later] ! 1) = collection ([news_item, news_late, news_later] ! 2)"
    and "truncate 40 (title ([news_item, news_late, news_later] ! 1))
       = truncate 40 (title ([news_item, news_late, news_later] ! 2))"
    and "entry_title stub_library ([news_item, news_late, news_later] ! 2) = ''News''"
    by (simp_all add: title_stub truncate_def news_late_def news_later_def)
  moreover have "entry_link stub_library ([news_item, news_late, news_later] ! 1)
       = Inr (''late.example/'' @ ellipsis @ '' (https://late.example/today)'')"
    by (simp add: link_late)
  moreover have "printed_leaf stub_library [news_item, news_late, news_later] ''work'' ''News''
       = Some (''news.example/'' @ ellipsis @ '' (https://news.example/today)'')"
    by (simp add: printed_leaf_def leaf_def run_three)
  moreover have "''late.example/'' @ ellipsis @ '' (https://late.example/today)''
       \<noteq> ''news.example/'' @ ellipsis @ '' (https://news.example/today)''"
    by simp
  ultimately show ?thesis by blast
qed

end
